theory Spec2Isabelle
  imports Main "HOL-Library.AList" "HOL-Library.Char_ord" "HOL-Library.List_Lexorder"
begin

section \<open>Strings\<close>

text \<open>
  Column names are Python \<open>str\<close>; here they are byte strings, and \<open>lower\<close> folds the
  ASCII capitals only (Python's \<open>str.lower\<close> also folds the capitals beyond ASCII).
\<close>

definition lower_char :: "char \<Rightarrow> char" where
  "lower_char c =
     (let n = (of_char c :: nat) in if 65 \<le> n \<and> n \<le> 90 then char_of (n + 32) else c)"

definition lower :: "string \<Rightarrow> string" where
  "lower s = map lower_char s"

text \<open>\<open>sub in s\<close> of Python: \<open>sub\<close> occurs in \<open>s\<close> as a contiguous run.\<close>

fun contains :: "string \<Rightarrow> string \<Rightarrow> bool" where
  "contains sub [] = (sub = [])"
| "contains sub (c # cs) = (take (length sub) (c # cs) = sub \<or> contains sub cs)"

section \<open>Tabular batches (pandas DataFrame)\<close>

text \<open>
  A cell of a batch. A timestamp is a calendar day (its ordinal) with a time of day in
  seconds; \<open>DateOnly\<close> is a \<open>datetime.date\<close>; \<open>NaT\<close> is the missing timestamp.
\<close>

datatype cell = Timestamp nat nat | DateOnly nat | Text string | Number int | NaT

datatype dtype = Datetime64 | ObjectT | Float64 | Int64

record series =
  dtype :: dtype
  cells :: "cell list"

text \<open>
  A DataFrame: the length of its index and its columns in order. Column labels are
  taken to be distinct.
\<close>

record dataframe =
  nrows :: nat
  columns :: "(string \<times> series) list"

definition df_empty :: "dataframe \<Rightarrow> bool" where
  "df_empty df = (nrows df = 0 \<or> columns df = [])"

definition is_datetime64_any_dtype :: "series \<Rightarrow> bool" where
  "is_datetime64_any_dtype s = (dtype s = Datetime64)"

text \<open>\<open>Series.dt.date\<close>: every timestamp loses its time of day; the result has dtype object.\<close>

fun strip_time :: "cell \<Rightarrow> cell" where
  "strip_time (Timestamp d t) = DateOnly d"
| "strip_time c = c"

definition dt_date :: "series \<Rightarrow> series" where
  "dt_date s = \<lparr>dtype = ObjectT, cells = map strip_time (cells s)\<rparr>"

text \<open>\<open>df[col] = value\<close>: replaces the column in place, or appends a new last column.\<close>

definition set_column :: "string \<Rightarrow> series \<Rightarrow> dataframe \<Rightarrow> dataframe" where
  "set_column col s df = df\<lparr>columns := AList.update col s (columns df)\<rparr>"

text \<open>
  The loop of \<open>load_to_raw\<close> over \<open>df.columns\<close>:
  \<^verbatim>\<open>
  for col in df.columns:
      if col.lower() == 'date' or 'date' in col.lower():
          if pd.api.types.is_datetime64_any_dtype(df[col]):
              df[col] = df[col].dt.date
  \<close>
\<close>

definition is_date_name :: "string \<Rightarrow> bool" where
  "is_date_name col = (lower col = ''date'' \<or> contains ''date'' (lower col))"

fun convert_date_columns :: "string list \<Rightarrow> dataframe \<Rightarrow> dataframe" where
  "convert_date_columns [] df = df"
| "convert_date_columns (col # cols) df =
     convert_date_columns cols
       (if is_date_name col then
          (case map_of (columns df) col of
             Some s \<Rightarrow> if is_datetime64_any_dtype s then set_column col (dt_date s) df else df
           | None \<Rightarrow> df)
        else df)"

text \<open>\<open>df['source_run_id'] = run_id\<close>: the scalar is broadcast to every row.\<close>

definition stamp_run_id :: "string \<Rightarrow> dataframe \<Rightarrow> dataframe" where
  "stamp_run_id rid df =
     set_column ''source_run_id'' \<lparr>dtype = ObjectT, cells = replicate (nrows df) (Text rid)\<rparr> df"

type_synonym row = "(string \<times> cell) list"

definition rows_of :: "dataframe \<Rightarrow> row list" where
  "rows_of df = map (\<lambda>i. map (\<lambda>(name, s). (name, cells s ! i)) (columns df)) [0..<nrows df]"

section \<open>Loader state\<close>

datatype exn = Exn string string

fun exn_text :: "exn \<Rightarrow> string" where
  "exn_text (Exn cls msg) = msg"

datatype level = WARNING | ERROR

text \<open>A row of \<open>METADATA.INGEST_RUNS\<close>.\<close>

record run_record =
  run_id :: string
  dataset_name :: string
  table_name :: string
  run_timestamp :: nat
  records_loaded :: nat
  status :: string
  error_message :: "string option"

datatype conn_state = NoConn | Open | Closed

text \<open>
  The loader object and everything it touches: the DataFrame objects by address, the
  connection \<open>self.conn\<close>, the tables of the RAW schema, the two metadata tables, and the
  records logged at warning level or above.
\<close>

record state =
  frames :: "nat \<Rightarrow> dataframe"
  next_addr :: nat
  conn :: conn_state
  raw_tables :: "string \<Rightarrow> row list"
  ingest_runs :: "run_record list"
  watermarks :: "string \<rightharpoonup> string \<times> nat"
  log :: "(level \<times> string) list"

text \<open>How \<open>write_pandas\<close> ends: it returns \<open>(success, num_chunks, num_rows, output)\<close> or raises.\<close>

datatype wp_outcome = WpReturn bool nat nat string | WpRaise exn

text \<open>
  What the surroundings decide during one task: whether connecting works, the value of
  \<open>generate_run_id()\<close> and of \<open>datetime.now()\<close>, how \<open>write_pandas\<close> ends, and whether
  each metadata statement raises.
\<close>

record env =
  connect_fault :: "exn option"
  fresh_run_id :: string
  now :: nat
  write_outcome :: wp_outcome
  ledger_fault :: "exn option"
  watermark_fault :: "exn option"
  select_fault :: "exn option"

definition logger :: "level \<Rightarrow> string \<Rightarrow> state \<Rightarrow> state" where
  "logger lv msg st = st\<lparr>log := log st @ [(lv, msg)]\<rparr>"

definition get_connection :: "env \<Rightarrow> state \<Rightarrow> state \<times> (exn + unit)" where
  "get_connection e st =
     (if conn st = Open then (st, Inr ())
      else (case connect_fault e of
              Some x \<Rightarrow> (st, Inl x)
            | None \<Rightarrow> (st\<lparr>conn := Open\<rparr>, Inr ())))"

text \<open>
  \<open>self.conn.cursor()\<close> followed by \<open>cursor.execute\<close>: without a connection the attribute
  access raises, on a closed connection the driver raises, otherwise the statement runs
  unless the surroundings make it fail.
\<close>

definition cursor_execute :: "exn option \<Rightarrow> state \<Rightarrow> exn option" where
  "cursor_execute fault st =
     (case conn st of
        NoConn \<Rightarrow> Some (Exn ''AttributeError'' ''NoneType object has no attribute cursor'')
      | Closed \<Rightarrow> Some (Exn ''ProgrammingError'' ''Connection is closed'')
      | Open \<Rightarrow> fault)"

definition log_ingest_run ::
  "env \<Rightarrow> string \<Rightarrow> string \<Rightarrow> string \<Rightarrow> nat \<Rightarrow> string \<Rightarrow> string option \<Rightarrow> state \<Rightarrow> state" where
  "log_ingest_run e rid dataset tbl n stat err st =
     (case cursor_execute (ledger_fault e) st of
        None \<Rightarrow>
          st\<lparr>ingest_runs := ingest_runs st @
               [\<lparr>run_id = rid, dataset_name = dataset, table_name = tbl, run_timestamp = now e,
                 records_loaded = n, status = stat, error_message = err\<rparr>]\<rparr>
      | Some x \<Rightarrow> logger WARNING (''Failed to log metadata: '' @ exn_text x) st)"

text \<open>
  \<open>write_pandas(conn, df, table_name, ..., auto_create_table, overwrite)\<close> of the
  Snowflake connector: a successful call puts the rows of the frame into the table, after
  the rows already there unless \<open>overwrite\<close> is set, and reports as \<open>num_rows\<close> the rows it
  put there (the call leaves \<open>on_error\<close> at its default, under which a rejected row makes
  the statement raise). What an unsuccessful call reports is up to the surroundings.
\<close>

definition write_pandas ::
  "wp_outcome \<Rightarrow> dataframe \<Rightarrow> string \<Rightarrow> bool \<Rightarrow> bool \<Rightarrow> state \<Rightarrow> state \<times> (exn + bool \<times> nat \<times> nat \<times> string)" where
  "write_pandas oc df tbl auto_create_table overwrite st =
     (case oc of
        WpRaise x \<Rightarrow> (st, Inl x)
      | WpReturn success num_chunks num_rows output \<Rightarrow>
          (if success then
             (st\<lparr>raw_tables := (raw_tables st)
                  (tbl := (if overwrite then [] else raw_tables st tbl) @ rows_of df)\<rparr>,
              Inr (True, num_chunks, length (rows_of df), output))
           else (st, Inr (False, num_chunks, num_rows, output))))"

datatype pyval = PInt nat | PStr string

type_synonym load_result = "(string \<times> pyval) list"

text \<open>The \<open>except Exception as e\<close> block of \<open>load_to_raw\<close>.\<close>

definition load_failed :: "env \<Rightarrow> string \<Rightarrow> string \<Rightarrow> exn \<Rightarrow> state \<Rightarrow> state \<times> (exn + load_result)" where
  "load_failed e tbl dataset x st =
     (let st1 = logger ERROR (''Error loading to '' @ tbl @ '': '' @ exn_text x) st;
          st2 = log_ingest_run e (fresh_run_id e) dataset tbl 0 ''failed'' (Some (exn_text x)) st1
      in (st2, Inl x))"

text \<open>
  \<open>SnowflakeLoader.load_to_raw(df, table_name, dataset_name, create_table)\<close>; \<open>df\<close> is the
  address of the caller's DataFrame.
\<close>

definition load_to_raw ::
  "env \<Rightarrow> nat \<Rightarrow> string \<Rightarrow> string \<Rightarrow> bool \<Rightarrow> state \<Rightarrow> state \<times> (exn + load_result)" where
  "load_to_raw e df tbl dataset create_table st =
     (if df_empty (frames st df) then
        (logger WARNING (''Empty DataFrame provided for '' @ tbl) st,
         Inr [(''records_loaded'', PInt 0), (''status'', PStr ''skipped'')])
      else
        (case get_connection e st of
           (st1, Inl x) \<Rightarrow> (st1, Inl x)
         | (st1, Inr _) \<Rightarrow>
            (let rid = fresh_run_id e;
                 c = next_addr st1;
                 st2 = st1\<lparr>frames := (frames st1)(c := frames st1 df), next_addr := Suc c\<rparr>;
                 st3 = st2\<lparr>frames := (frames st2)
                          (c := convert_date_columns (map fst (columns (frames st2 c))) (frames st2 c))\<rparr>;
                 st4 = st3\<lparr>frames := (frames st3)(c := stamp_run_id rid (frames st3 c))\<rparr>
             in (case write_pandas (write_outcome e) (frames st4 c) tbl create_table False st4 of
                   (st5, Inl x) \<Rightarrow> load_failed e tbl dataset x st5
                 | (st5, Inr (success, num_chunks, num_rows, output)) \<Rightarrow>
                     if success then
                       (log_ingest_run e rid dataset tbl num_rows ''completed'' None st5,
                        Inr [(''run_id'', PStr rid), (''records_loaded'', PInt num_rows),
                             (''status'', PStr ''completed''), (''chunks'', PInt num_chunks)])
                     else load_failed e tbl dataset (Exn ''Exception'' (''Load failed: '' @ output)) st5))))"

section \<open>Watermarks\<close>

text \<open>
  \<open>update_watermark(dataset_name, watermark_value)\<close>: one MERGE keyed by the dataset name,
  storing \<open>str(watermark_value)\<close>. Every caller passes a \<open>str\<close>, which \<open>str\<close> leaves as
  it is. An exception is logged as a warning and goes no further.
\<close>

definition update_watermark :: "env \<Rightarrow> string \<Rightarrow> string \<Rightarrow> state \<Rightarrow> state" where
  "update_watermark e dataset v st =
     (case cursor_execute (watermark_fault e) st of
        None \<Rightarrow> st\<lparr>watermarks := (watermarks st)(dataset \<mapsto> (v, now e))\<rparr>
      | Some x \<Rightarrow> logger WARNING (''Failed to update watermark: '' @ exn_text x) st)"

definition get_watermark :: "env \<Rightarrow> string \<Rightarrow> state \<Rightarrow> state \<times> string option" where
  "get_watermark e dataset st =
     (case cursor_execute (select_fault e) st of
        None \<Rightarrow> (st, (case watermarks st dataset of Some result \<Rightarrow> Some (fst result) | None \<Rightarrow> None))
      | Some x \<Rightarrow> (logger WARNING (''Failed to get watermark: '' @ exn_text x) st, None))"

definition close :: "state \<Rightarrow> state" where
  "close st = (if conn st = Open then st\<lparr>conn := Closed\<rparr> else st)"

text \<open>A sequence of \<open>update_watermark\<close> calls, each with its own surroundings.\<close>

fun advance_all :: "(env \<times> string \<times> string) list \<Rightarrow> state \<Rightarrow> state" where
  "advance_all [] st = st"
| "advance_all ((e, dataset, v) # rest) st = advance_all rest (update_watermark e dataset v st)"

section \<open>The extraction tasks\<close>

text \<open>
  \<open>df[col].max()\<close>: missing timestamps are skipped; comparing cells of different kinds
  raises TypeError; a column that is not there raises KeyError.
\<close>

fun cell_less :: "cell \<Rightarrow> cell \<Rightarrow> bool option" where
  "cell_less (Timestamp d t) (Timestamp d' t') = Some (d < d' \<or> (d = d' \<and> t < t'))"
| "cell_less (DateOnly d) (DateOnly d') = Some (d < d')"
| "cell_less (Text s) (Text s') = Some (s < s')"
| "cell_less (Number n) (Number n') = Some (n < n')"
| "cell_less _ _ = None"

fun max_cells :: "cell \<Rightarrow> cell list \<Rightarrow> exn + cell" where
  "max_cells m [] = Inr m"
| "max_cells m (c # cs) =
     (case cell_less m c of
        None \<Rightarrow> Inl (Exn ''TypeError'' ''not supported between instances'')
      | Some b \<Rightarrow> max_cells (if b then c else m) cs)"

definition column_max :: "dataframe \<Rightarrow> string \<Rightarrow> exn + cell" where
  "column_max df col =
     (case map_of (columns df) col of
        None \<Rightarrow> Inl (Exn ''KeyError'' col)
      | Some s \<Rightarrow>
          (case filter (\<lambda>c. c \<noteq> NaT) (cells s) of
             [] \<Rightarrow> Inr NaT
           | c # cs \<Rightarrow> max_cells c cs))"

text \<open>\<open>xcom_push(key='records_loaded', value=result['records_loaded'])\<close>: the value pushed.\<close>

definition xcom_push :: "load_result \<Rightarrow> exn + pyval" where
  "xcom_push result =
     (case map_of result ''records_loaded'' of
        None \<Rightarrow> Inl (Exn ''KeyError'' ''records_loaded'')
      | Some v \<Rightarrow> Inr v)"

text \<open>
  The body of \<open>extract_and_load_prices\<close> and of \<open>extract_and_load_benchmarks\<close> from the
  construction of the loader on, for the extracted batch at address \<open>df\<close>; the two differ
  in the table and dataset names only. \<open>str_of\<close> is Python's \<open>str\<close> on cells.
  \<^verbatim>\<open>
  loader = SnowflakeLoader(profiles_path=...)
  try:
      result = loader.load_to_raw(df=df, table_name=..., dataset_name=..., create_table=False)
      if not df.empty:
          max_date = df['date'].max()
          loader.update_watermark(dataset_name, str(max_date))
      context['task_instance'].xcom_push(key='records_loaded', value=result['records_loaded'])
  finally:
      loader.close()
  \<close>
\<close>

definition load_with_watermark ::
  "string \<Rightarrow> string \<Rightarrow> (cell \<Rightarrow> string) \<Rightarrow> env \<Rightarrow> nat \<Rightarrow> state \<Rightarrow> state \<times> (exn + pyval)" where
  "load_with_watermark tbl dataset str_of e df st =
     (case load_to_raw e df tbl dataset False (st\<lparr>conn := NoConn\<rparr>) of
        (st1, Inl x) \<Rightarrow> (close st1, Inl x)
      | (st1, Inr result) \<Rightarrow>
          if \<not> df_empty (frames st1 df) then
            (case column_max (frames st1 df) ''date'' of
               Inl x \<Rightarrow> (close st1, Inl x)
             | Inr max_date \<Rightarrow>
                 (close (update_watermark e dataset (str_of max_date) st1), xcom_push result))
          else (close st1, xcom_push result))"

definition extract_and_load_prices ::
  "(cell \<Rightarrow> string) \<Rightarrow> env \<Rightarrow> nat \<Rightarrow> state \<Rightarrow> state \<times> (exn + pyval)" where
  "extract_and_load_prices = load_with_watermark ''STOCK_PRICES_DAILY'' ''stock_prices''"

definition extract_and_load_benchmarks ::
  "(cell \<Rightarrow> string) \<Rightarrow> env \<Rightarrow> nat \<Rightarrow> state \<Rightarrow> state \<times> (exn + pyval)" where
  "extract_and_load_benchmarks = load_with_watermark ''BENCHMARK_SERIES_DAILY'' ''benchmark_series''"

text \<open>\<open>extract_and_load_company_info\<close>: the same without the watermark step.\<close>

definition extract_and_load_company_info :: "env \<Rightarrow> nat \<Rightarrow> state \<Rightarrow> state \<times> (exn + pyval)" where
  "extract_and_load_company_info e df st =
     (case load_to_raw e df ''COMPANY_INFO'' ''company_info'' False (st\<lparr>conn := NoConn\<rparr>) of
        (st1, Inl x) \<Rightarrow> (close st1, Inl x)
      | (st1, Inr result) \<Rightarrow> (close st1, xcom_push result))"

section \<open>Sample inputs\<close>

definition no_frame :: dataframe where
  "no_frame = \<lparr>nrows = 0, columns = []\<rparr>"

definition price_frame :: dataframe where
  "price_frame =
     \<lparr>nrows = 2,
      columns =
        [(''symbol'', \<lparr>dtype = ObjectT, cells = [Text ''AAPL'', Text ''AAPL'']\<rparr>),
         (''date'', \<lparr>dtype = Datetime64, cells = [Timestamp 738000 0, Timestamp 738001 3600]\<rparr>),
         (''close'', \<lparr>dtype = Int64, cells = [Number 190, Number 191]\<rparr>)]\<rparr>"

definition start_state :: state where
  "start_state =
     \<lparr>frames = (\<lambda>_. no_frame)(0 := price_frame), next_addr = 2, conn = NoConn,
      raw_tables = (\<lambda>_. []), ingest_runs = [], watermarks = Map.empty, log = []\<rparr>"

definition calm :: env where
  "calm =
     \<lparr>connect_fault = None, fresh_run_id = ''run-1'', now = 100,
      write_outcome = WpReturn True 1 2 ''ok'', ledger_fault = None, watermark_fault = None,
      select_fault = None\<rparr>"

definition sample_str :: "cell \<Rightarrow> string" where
  "sample_str c =
     (case c of
        Timestamp d t \<Rightarrow> (if d = 738001 then ''2021-07-30 01:00:00'' else ''2021-07-29 00:00:00'')
      | DateOnly d \<Rightarrow> (if d = 738001 then ''2021-07-30'' else ''2021-07-29'')
      | Text s \<Rightarrow> s
      | Number n \<Rightarrow> ''0''
      | NaT \<Rightarrow> ''NaT'')"

definition write_raises :: env where
  "write_raises = calm\<lparr>write_outcome := WpRaise (Exn ''ProgrammingError'' ''Table does not exist'')\<rparr>"

definition all_down :: env where
  "all_down = write_raises\<lparr>ledger_fault := Some (Exn ''OperationalError'' ''session expired'')\<rparr>"

definition ledger_down :: env where
  "ledger_down = calm\<lparr>ledger_fault := Some (Exn ''OperationalError'' ''session expired'')\<rparr>"

definition stocked_state :: state where
  "stocked_state =
     start_state\<lparr>conn := Open,
       raw_tables := (\<lambda>_. [])(''STOCK_PRICES_DAILY'' := [[(''symbol'', Text ''MSFT'')]]),
       watermarks := [''stock_prices'' \<mapsto> (''2024-01-10'', 7)]\<rparr>"

section \<open>The data-quality check\<close>

text \<open>
  A value in a query result: an integer, a \<open>datetime.date\<close> (its ordinal), a string, or
  SQL NULL.
\<close>

datatype qval = QInt int | QDate int | QStr string | QNull

text \<open>\<open>str\<close> of a Python integer, as the f-string of the warning formats it.\<close>

fun show_nat :: "nat \<Rightarrow> string" where
  "show_nat n =
     (if n < 10 then [char_of (48 + n)] else show_nat (n div 10) @ [char_of (48 + n mod 10)])"

declare show_nat.simps [simp del]

definition py_str_int :: "int \<Rightarrow> string" where
  "py_str_int i = (if i < 0 then CHR ''-'' # show_nat (nat (- i)) else show_nat (nat i))"

text \<open>
  What the surroundings decide while \<open>verify_data_quality\<close> runs: how
  \<open>loader.execute_query(query)\<close> ends for each query text (it raises, or it returns a frame,
  of which the one column that is read is kept, top row first; the empty list is an empty
  frame), the value of \<open>datetime.now().date()\<close>, and how \<open>datetime.strptime(s, '%Y-%m-%d')\<close>
  ends for each string.
\<close>

record gate_env =
  query_result :: "string \<Rightarrow> exn + qval list"
  today :: int
  strptime :: "string \<Rightarrow> exn + int"

definition checks :: "(string \<times> string) list" where
  "checks =
     [(''COBRA.STOCK_PRICES_DAILY'', ''stock prices''),
      (''COBRA.COMPANY_INFO'', ''company info''),
      (''COBRA.BENCHMARK_SERIES_DAILY'', ''benchmark series'')]"

definition count_query :: "string \<Rightarrow> string" where
  "count_query table = ''SELECT COUNT(*) as count FROM '' @ table"

text \<open>The freshness query, with its line breaks and indentation written as single blanks.\<close>

definition recent_check :: string where
  "recent_check = ''SELECT MAX(date) as max_date FROM COBRA.STOCK_PRICES_DAILY''"

text \<open>
  The loop over \<open>checks\<close>:
  \<^verbatim>\<open>
  for table, name in checks:
      result = loader.execute_query(query)
      count = result['COUNT'].iloc[0] if not result.empty else 0
      results[name] = count
      if count == 0:
          raise ValueError(f"No data found in {table}")
  \<close>
\<close>

fun check_counts ::
  "gate_env \<Rightarrow> (string \<times> string) list \<Rightarrow> (string \<times> qval) list \<Rightarrow> exn + (string \<times> qval) list" where
  "check_counts g [] results = Inr results"
| "check_counts g ((table, name) # rest) results =
     (case query_result g (count_query table) of
        Inl x \<Rightarrow> Inl x
      | Inr result \<Rightarrow>
          (let count = (case result of [] \<Rightarrow> QInt 0 | c # _ \<Rightarrow> c)
           in if count = QInt 0 then Inl (Exn ''ValueError'' (''No data found in '' @ table))
              else check_counts g rest (AList.update name count results)))"

text \<open>
  \<open>max_date\<close> on its way into the subtraction: a string goes through \<open>strptime\<close>, a date
  stays, and for anything else \<open>date - max_date\<close> raises.
\<close>

definition to_date :: "gate_env \<Rightarrow> qval \<Rightarrow> exn + int" where
  "to_date g max_date =
     (case max_date of
        QStr s \<Rightarrow> strptime g s
      | QDate d \<Rightarrow> Inr d
      | _ \<Rightarrow> Inl (Exn ''TypeError'' ''unsupported operand type(s) for -''))"

text \<open>The freshness part; it returns the records logged at warning level.\<close>

definition check_freshness :: "gate_env \<Rightarrow> exn + (level \<times> string) list" where
  "check_freshness g =
     (case query_result g recent_check of
        Inl x \<Rightarrow> Inl x
      | Inr result \<Rightarrow>
          (case result of
             [] \<Rightarrow> Inr []
           | max_date # _ \<Rightarrow>
               (case to_date g max_date of
                  Inl x \<Rightarrow> Inl x
                | Inr d \<Rightarrow>
                    (let days_old = today g - d
                     in if days_old > 7
                        then Inr [(WARNING,
                                   ''Data is '' @ py_str_int days_old @ '' days old - may need refresh'')]
                        else Inr []))))"

text \<open>
  \<open>verify_data_quality\<close>: the records logged at warning level, and the exception raised or
  the \<open>results\<close> dict returned.
\<close>

definition verify_data_quality ::
  "gate_env \<Rightarrow> (level \<times> string) list \<times> (exn + (string \<times> qval) list)" where
  "verify_data_quality g =
     (case check_counts g checks [] of
        Inl x \<Rightarrow> ([], Inl x)
      | Inr results \<Rightarrow>
          (case check_freshness g of
             Inl x \<Rightarrow> ([], Inl x)
           | Inr warnings \<Rightarrow> (warnings, Inr results)))"

section \<open>The task graph\<close>

text \<open>The seven operators of \<open>finance_pipeline_dag\<close>.\<close>

datatype task =
  StartMarker | ExtractPrices | ExtractCompany | ExtractBenchmarks | Verify | TransformDbt | EndMarker

record default_args =
  owner :: string
  depends_on_past :: bool
  email_on_failure :: bool
  email_on_retry :: bool
  retries :: nat
  retry_delay :: nat

text \<open>\<open>default_args\<close> of the DAG file; the delay is in seconds.\<close>

definition dag_default_args :: default_args where
  "dag_default_args =
     \<lparr>owner = ''finance_team'', depends_on_past = False, email_on_failure = False,
      email_on_retry = False, retries = 2, retry_delay = 5 * 60\<rparr>"

text \<open>
  An operator as the DAG file constructs it: its \<open>task_id\<close>, and the \<open>retries\<close> and
  \<open>retry_delay\<close> arguments given to its constructor, if any. No constructor call in the
  file gives either.
\<close>

record operator =
  task_id :: string
  own_retries :: "nat option"
  own_retry_delay :: "nat option"

fun operator_of :: "task \<Rightarrow> operator" where
  "operator_of StartMarker = \<lparr>task_id = ''start'', own_retries = None, own_retry_delay = None\<rparr>"
| "operator_of ExtractPrices =
     \<lparr>task_id = ''extract_yahoo_prices'', own_retries = None, own_retry_delay = None\<rparr>"
| "operator_of ExtractCompany =
     \<lparr>task_id = ''extract_yahoo_company_info'', own_retries = None, own_retry_delay = None\<rparr>"
| "operator_of ExtractBenchmarks =
     \<lparr>task_id = ''extract_yahoo_benchmark_series'', own_retries = None, own_retry_delay = None\<rparr>"
| "operator_of Verify =
     \<lparr>task_id = ''verify_data_quality'', own_retries = None, own_retry_delay = None\<rparr>"
| "operator_of TransformDbt =
     \<lparr>task_id = ''transform_dbt'', own_retries = None, own_retry_delay = None\<rparr>"
| "operator_of EndMarker = \<lparr>task_id = ''end'', own_retries = None, own_retry_delay = None\<rparr>"

text \<open>
  The operators are constructed inside \<open>with DAG(..., default_args=default_args)\<close>: an
  argument an operator is not given is taken from \<open>default_args\<close>.
\<close>

definition task_retries :: "task \<Rightarrow> nat" where
  "task_retries t =
     (case own_retries (operator_of t) of Some r \<Rightarrow> r | None \<Rightarrow> retries dag_default_args)"

definition task_retry_delay :: "task \<Rightarrow> nat" where
  "task_retry_delay t =
     (case own_retry_delay (operator_of t) of Some d \<Rightarrow> d | None \<Rightarrow> retry_delay dag_default_args)"

text \<open>
  \<open>start >> [extract_prices, extract_company, extract_benchmarks] >> verify >> transform_dbt >> end\<close>:
  every member of one link is upstream of every member of the next.
\<close>

definition chain :: "task list list" where
  "chain =
     [[StartMarker], [ExtractPrices, ExtractCompany, ExtractBenchmarks], [Verify], [TransformDbt],
      [EndMarker]]"

fun edges_of :: "task list list \<Rightarrow> (task \<times> task) list" where
  "edges_of (us # ds # rest) = List.product us ds @ edges_of (ds # rest)"
| "edges_of _ = []"

definition upstream :: "task \<Rightarrow> task list" where
  "upstream t = map fst (filter (\<lambda>(u, d). d = t) (edges_of chain))"

datatype task_state = Pending | Running | Succeeded | Failed | UpstreamFailed

text \<open>One run of the graph: the state of every task and how often it has been started.\<close>

record sched =
  state_of :: "task \<Rightarrow> task_state"
  attempts :: "task \<Rightarrow> nat"

datatype event = Begin task | Succeed task | Fail task | Propagate task

definition init :: sched where
  "init = \<lparr>state_of = (\<lambda>_. Pending), attempts = (\<lambda>_. 0)\<rparr>"

text \<open>
  Modelled from the spec: the orchestrator that runs the graph is the Airflow scheduler,
  which the repository configures and does not contain. After section 4.1 of the
  specification: a task is started only when it is waiting and all of its upstream tasks
  have succeeded; a running task that fails goes back to waiting while it has retries left
  (it has been started at most \<open>retries\<close> times) and is failed otherwise; a waiting task with
  a failed or upstream-failed upstream task becomes upstream-failed without running. An
  event that does not apply leaves the run as it is, so every list of events is a run.
\<close>

fun step :: "event \<Rightarrow> sched \<Rightarrow> sched" where
  "step (Begin t) s =
     (if state_of s t = Pending \<and> (\<forall>u \<in> set (upstream t). state_of s u = Succeeded)
      then s\<lparr>state_of := (state_of s)(t := Running),
             attempts := (attempts s)(t := Suc (attempts s t))\<rparr>
      else s)"
| "step (Succeed t) s =
     (if state_of s t = Running then s\<lparr>state_of := (state_of s)(t := Succeeded)\<rparr> else s)"
| "step (Fail t) s =
     (if state_of s t = Running
      then (if attempts s t \<le> task_retries t then s\<lparr>state_of := (state_of s)(t := Pending)\<rparr>
            else s\<lparr>state_of := (state_of s)(t := Failed)\<rparr>)
      else s)"
| "step (Propagate t) s =
     (if state_of s t = Pending
         \<and> (\<exists>u \<in> set (upstream t). state_of s u = Failed \<or> state_of s u = UpstreamFailed)
      then s\<lparr>state_of := (state_of s)(t := UpstreamFailed)\<rparr>
      else s)"

fun run :: "event list \<Rightarrow> sched \<Rightarrow> sched" where
  "run [] s = s"
| "run (e # es) s = run es (step e s)"

text \<open>
  Modelled from the spec: how a task instance ends is decided by its callable, a callable
  that raises fails the instance and one that returns lets it succeed.
\<close>

definition task_outcome :: "task \<Rightarrow> exn + 'a \<Rightarrow> event" where
  "task_outcome t r = (case r of Inl x \<Rightarrow> Fail t | Inr v \<Rightarrow> Succeed t)"

section \<open>Sample warehouses and runs\<close>

definition empty_company :: gate_env where
  "empty_company =
     \<lparr>query_result = (\<lambda>q. if q = count_query ''COBRA.COMPANY_INFO'' then Inr [QInt 0]
                           else if q = recent_check then Inr [QDate 738000] else Inr [QInt 5]),
      today = 738003, strptime = (\<lambda>s. Inl (Exn ''ValueError'' ''does not match format''))\<rparr>"

definition stale :: gate_env where
  "stale =
     \<lparr>query_result = (\<lambda>q. if q = recent_check then Inr [QDate 738000] else Inr [QInt 5]),
      today = 738010, strptime = (\<lambda>s. Inl (Exn ''ValueError'' ''does not match format''))\<rparr>"

definition extracts_done :: "event list" where
  "extracts_done =
     [Begin StartMarker, Succeed StartMarker,
      Begin ExtractPrices, Begin ExtractCompany, Begin ExtractBenchmarks,
      Succeed ExtractCompany, Succeed ExtractPrices, Succeed ExtractBenchmarks]"

definition prices_fail :: "event list" where
  "prices_fail =
     [Begin StartMarker, Succeed StartMarker,
      Begin ExtractPrices, Begin ExtractCompany, Begin ExtractBenchmarks,
      Succeed ExtractCompany, Succeed ExtractBenchmarks,
      Fail ExtractPrices, Begin ExtractPrices, Fail ExtractPrices, Begin ExtractPrices,
      Fail ExtractPrices]"

definition gate_retried :: "event list" where
  "gate_retried =
     extracts_done @ [Begin Verify, Fail Verify, Begin Verify, Fail Verify, Begin Verify]"

definition full_run :: "event list" where
  "full_run =
     extracts_done @
     [Begin Verify, Succeed Verify, Begin TransformDbt, Succeed TransformDbt, Begin EndMarker]"

definition after_failure :: "event list" where
  "after_failure =
     [Propagate Verify, Begin Verify, Propagate TransformDbt, Begin TransformDbt, Begin EndMarker]"

section \<open>Facts about the loader\<close>

lemmas load_defs = load_to_raw_def get_connection_def write_pandas_def load_failed_def
  log_ingest_run_def cursor_execute_def logger_def Let_def

lemma logger_frame [simp]:
  "frames (logger lv m st) = frames st" "next_addr (logger lv m st) = next_addr st"
  "conn (logger lv m st) = conn st" "raw_tables (logger lv m st) = raw_tables st"
  "ingest_runs (logger lv m st) = ingest_runs st" "watermarks (logger lv m st) = watermarks st"
  by (simp_all add: logger_def)

lemma close_frame [simp]:
  "frames (close st) = frames st" "next_addr (close st) = next_addr st"
  "raw_tables (close st) = raw_tables st" "log (close st) = log st"
  "ingest_runs (close st) = ingest_runs st" "watermarks (close st) = watermarks st"
  by (simp_all add: close_def)

lemma log_ingest_run_frame [simp]:
  "frames (log_ingest_run e rid ds tbl n stat err st) = frames st"
  "next_addr (log_ingest_run e rid ds tbl n stat err st) = next_addr st"
  "conn (log_ingest_run e rid ds tbl n stat err st) = conn st"
  "raw_tables (log_ingest_run e rid ds tbl n stat err st) = raw_tables st"
  "watermarks (log_ingest_run e rid ds tbl n stat err st) = watermarks st"
  by (simp_all add: log_ingest_run_def split: option.splits)

lemma load_failed_frame [simp]:
  "frames (fst (load_failed e tbl ds x st)) = frames st"
  "next_addr (fst (load_failed e tbl ds x st)) = next_addr st"
  "conn (fst (load_failed e tbl ds x st)) = conn st"
  "raw_tables (fst (load_failed e tbl ds x st)) = raw_tables st"
  "watermarks (fst (load_failed e tbl ds x st)) = watermarks st"
  "snd (load_failed e tbl ds x st) = Inl x"
  by (simp_all add: load_failed_def Let_def)

lemma start_state_frames:
  "frames start_state 0 = price_frame" "frames start_state (Suc 0) = no_frame"
  "\<not> df_empty price_frame" "df_empty no_frame"
  by (simp_all add: start_state_def price_frame_def no_frame_def df_empty_def)

lemma load_empty:
  assumes "df_empty (frames st df)"
  shows "load_to_raw e df tbl dataset create_table st =
           (logger WARNING (''Empty DataFrame provided for '' @ tbl) st,
            Inr [(''records_loaded'', PInt 0), (''status'', PStr ''skipped'')])"
  using assms by (simp add: load_to_raw_def)

lemma load_watermarks:
  "watermarks (fst (load_to_raw e df tbl ds ct st)) = watermarks st"
  by (simp add: load_to_raw_def get_connection_def write_pandas_def Let_def
           split: option.splits wp_outcome.splits)

section \<open>Empty batches\<close>

text \<open>
  C1, as the code has it. For an empty batch \<open>load_to_raw\<close> returns the dictionary
  \<open>{'records_loaded': 0, 'status': 'skipped'}\<close> as a normal result and leaves the warehouse
  tables, the run ledger and the watermarks as they were: the skipped status is reported to
  the caller only, no run record is written. The task around it does not touch the
  watermark either and pushes the count 0.
\<close>

theorem empty_batch_skipped:
  assumes "df_empty (frames st df)"
  shows "snd (load_to_raw e df tbl dataset create_table st) =
           Inr [(''records_loaded'', PInt 0), (''status'', PStr ''skipped'')]
       \<and> raw_tables (fst (load_to_raw e df tbl dataset create_table st)) = raw_tables st
       \<and> ingest_runs (fst (load_to_raw e df tbl dataset create_table st)) = ingest_runs st
       \<and> watermarks (fst (load_to_raw e df tbl dataset create_table st)) = watermarks st
       \<and> watermarks (fst (load_with_watermark tbl dataset str_of e df st)) = watermarks st
       \<and> snd (load_with_watermark tbl dataset str_of e df st) = Inr (PInt 0)"
  using assms by (simp add: load_empty load_with_watermark_def xcom_push_def)

theorem empty_batch_skipped_witness:
  "df_empty (frames start_state 1)
   \<and> snd (load_to_raw calm 1 ''COMPANY_INFO'' ''company_info'' False start_state) =
           Inr [(''records_loaded'', PInt 0), (''status'', PStr ''skipped'')]
   \<and> watermarks (fst (load_to_raw calm 1 ''COMPANY_INFO'' ''company_info'' False start_state)) =
           watermarks start_state"
proof -
  have h: "df_empty (frames start_state 1)"
    by (simp add: start_state_frames)
  show ?thesis
    using h empty_batch_skipped [OF h, of calm "''COMPANY_INFO''" "''company_info''" False]
    by simp
qed

text \<open>
  C1 as stated asks for a run record with status \<open>skipped\<close> in the ledger. On an empty
  batch and an empty ledger the ledger is still empty after the call.
\<close>

theorem empty_batch_no_ledger_record:
  "df_empty (frames start_state 1)
   \<and> ingest_runs start_state = []
   \<and> ingest_runs (fst (load_to_raw calm 1 ''COMPANY_INFO'' ''company_info'' False start_state)) = []"
  by (simp add: load_to_raw_def start_state_def no_frame_def df_empty_def logger_def)

section \<open>Failed loads\<close>

text \<open>
  C4. On a non-empty batch with a connection, when \<open>write_pandas\<close> raises \<open>x\<close>, the call
  ends by raising that same \<open>x\<close>. If the ledger statement goes through, the ledger has
  gained exactly one record, with status \<open>failed\<close>, zero rows and the text of \<open>x\<close>. If the
  ledger statement raises \<open>y\<close> instead, the ledger is unchanged, a warning with the text of
  \<open>y\<close> is logged after the error record, and the caller still gets \<open>x\<close>.
\<close>

theorem failed_load_recorded_and_reraised:
  assumes "\<not> df_empty (frames st df)" and "conn st = Open \<or> connect_fault e = None"
    and "write_outcome e = WpRaise x"
  shows "snd (load_to_raw e df tbl ds ct st) = Inl x
    \<and> (ledger_fault e = None \<longrightarrow>
           ingest_runs (fst (load_to_raw e df tbl ds ct st)) =
             ingest_runs st @
               [\<lparr>run_id = fresh_run_id e, dataset_name = ds, table_name = tbl,
                 run_timestamp = now e, records_loaded = 0, status = ''failed'',
                 error_message = Some (exn_text x)\<rparr>])
    \<and> (\<forall>y. ledger_fault e = Some y \<longrightarrow>
           ingest_runs (fst (load_to_raw e df tbl ds ct st)) = ingest_runs st
         \<and> log (fst (load_to_raw e df tbl ds ct st)) =
             log st @ [(ERROR, ''Error loading to '' @ tbl @ '': '' @ exn_text x),
                       (WARNING, ''Failed to log metadata: '' @ exn_text y)])"
  using assms
  by (auto simp: load_defs split: option.splits)

theorem failed_load_recorded_and_reraised_witness:
  "snd (load_to_raw write_raises 0 ''STOCK_PRICES_DAILY'' ''stock_prices'' False start_state) =
     Inl (Exn ''ProgrammingError'' ''Table does not exist'')
   \<and> ingest_runs (fst (load_to_raw write_raises 0 ''STOCK_PRICES_DAILY'' ''stock_prices'' False start_state)) =
       [\<lparr>run_id = ''run-1'', dataset_name = ''stock_prices'', table_name = ''STOCK_PRICES_DAILY'',
         run_timestamp = 100, records_loaded = 0, status = ''failed'',
         error_message = Some ''Table does not exist''\<rparr>]
   \<and> snd (load_to_raw all_down 0 ''STOCK_PRICES_DAILY'' ''stock_prices'' False start_state) =
     Inl (Exn ''ProgrammingError'' ''Table does not exist'')
   \<and> ingest_runs (fst (load_to_raw all_down 0 ''STOCK_PRICES_DAILY'' ''stock_prices'' False start_state)) = []
   \<and> log (fst (load_to_raw all_down 0 ''STOCK_PRICES_DAILY'' ''stock_prices'' False start_state)) =
       [(ERROR, ''Error loading to STOCK_PRICES_DAILY: Table does not exist''),
        (WARNING, ''Failed to log metadata: session expired'')]"
proof -
  have h1: "\<not> df_empty (frames start_state 0)"
    by (simp add: start_state_frames)
  have h2: "conn start_state = Open \<or> connect_fault write_raises = None"
    by (simp add: write_raises_def calm_def)
  have h3: "write_outcome write_raises = WpRaise (Exn ''ProgrammingError'' ''Table does not exist'')"
    by (simp add: write_raises_def)
  have k2: "conn start_state = Open \<or> connect_fault all_down = None"
    by (simp add: all_down_def write_raises_def calm_def)
  have k3: "write_outcome all_down = WpRaise (Exn ''ProgrammingError'' ''Table does not exist'')"
    by (simp add: all_down_def write_raises_def)
  have a: "ledger_fault write_raises = None"
    by (simp add: write_raises_def calm_def)
  have b: "ledger_fault all_down = Some (Exn ''OperationalError'' ''session expired'')"
    by (simp add: all_down_def)
  have c: "fresh_run_id write_raises = ''run-1''" "now write_raises = 100"
    "ingest_runs start_state = []" "log start_state = []"
    by (simp_all add: write_raises_def calm_def start_state_def)
  show ?thesis
    using failed_load_recorded_and_reraised
            [OF h1 h2 h3, of "''STOCK_PRICES_DAILY''" "''stock_prices''" False]
          failed_load_recorded_and_reraised
            [OF h1 k2 k3, of "''STOCK_PRICES_DAILY''" "''stock_prices''" False]
          a b c
    by simp
qed

lemma load_frames:
  "frames (fst (load_to_raw e df tbl ds ct st)) a =
     (if \<not> df_empty (frames st df) \<and> (conn st = Open \<or> connect_fault e = None) \<and> a = next_addr st
      then stamp_run_id (fresh_run_id e)
             (convert_date_columns (map fst (columns (frames st df))) (frames st df))
      else frames st a)"
  by (simp add: load_to_raw_def get_connection_def write_pandas_def Let_def
           split: option.splits wp_outcome.splits)

lemma load_tables:
  "raw_tables (fst (load_to_raw e df tbl ds ct st)) t =
     raw_tables st t @
       (if \<not> df_empty (frames st df) \<and> (conn st = Open \<or> connect_fault e = None) \<and> t = tbl
           \<and> (case write_outcome e of WpReturn success _ _ _ \<Rightarrow> success | WpRaise _ \<Rightarrow> False)
        then rows_of (frames (fst (load_to_raw e df tbl ds ct st)) (next_addr st)) else [])"
  by (simp add: load_to_raw_def get_connection_def write_pandas_def Let_def
           split: option.splits wp_outcome.splits)

lemma convert_nrows [simp]: "nrows (convert_date_columns names d) = nrows d"
  by (induction names arbitrary: d) (simp_all add: set_column_def split: option.splits)

lemma dt_date_not_datetime [simp]: "\<not> is_datetime64_any_dtype (dt_date s)"
  by (simp add: is_datetime64_any_dtype_def dt_date_def)

lemma set_column_lookup:
  "map_of (columns (set_column col s d)) name = (if name = col then Some s else map_of (columns d) name)"
  by (simp add: set_column_def update_conv')

lemma convert_lookup:
  "map_of (columns (convert_date_columns names d)) name =
     (case map_of (columns d) name of
        None \<Rightarrow> None
      | Some s \<Rightarrow> Some (if name \<in> set names \<and> is_date_name name \<and> is_datetime64_any_dtype s
                        then dt_date s else s))"
proof (induction names arbitrary: d)
  case Nil
  show ?case by (simp split: option.splits)
next
  case (Cons col cols)
  show ?case
    by (auto simp: Cons.IH set_column_lookup split: option.splits)
qed

lemma strip_time_no_clock: "strip_time c \<noteq> Timestamp d t"
  by (cases c) simp_all

lemma is_date_name_date: "is_date_name ''date''" "\<not> is_date_name ''symbol''"
  by (simp_all add: is_date_name_def lower_def lower_char_def)

lemma stocked_state_simps:
  "frames stocked_state 0 = price_frame" "next_addr stocked_state = 2"
  "conn stocked_state = Open"
  "raw_tables stocked_state ''STOCK_PRICES_DAILY'' = [[(''symbol'', Text ''MSFT'')]]"
  "watermarks stocked_state ''stock_prices'' = Some (''2024-01-10'', 7)"
  "watermarks stocked_state ''company_info'' = None"
  by (simp_all add: stocked_state_def start_state_def)

lemma calm_simps:
  "connect_fault calm = None" "fresh_run_id calm = ''run-1''" "now calm = 100"
  "write_outcome calm = WpReturn True 1 2 ''ok''" "ledger_fault calm = None"
  "watermark_fault calm = None" "select_fault calm = None"
  by (simp_all add: calm_def)

lemma price_frame_simps:
  "nrows price_frame = 2"
  "map_of (columns price_frame) ''date'' =
     Some \<lparr>dtype = Datetime64, cells = [Timestamp 738000 0, Timestamp 738001 3600]\<rparr>"
  "map_of (columns price_frame) ''source_run_id'' = None"
  "column_max price_frame ''date'' = Inr (Timestamp 738001 3600)"
  by (simp_all add: price_frame_def column_max_def)

lemma copy_rows [simp]:
  "length (rows_of (stamp_run_id rid (convert_date_columns names d))) = nrows d"
  by (simp add: rows_of_def stamp_run_id_def set_column_def)

lemma load_completed:
  assumes "\<not> df_empty (frames st df)" and "conn st = Open \<or> connect_fault e = None"
    and "write_outcome e = WpReturn True k n out"
  shows "snd (load_to_raw e df tbl ds ct st) =
           Inr [(''run_id'', PStr (fresh_run_id e)),
                (''records_loaded'', PInt (nrows (frames st df))),
                (''status'', PStr ''completed''), (''chunks'', PInt k)]"
    and "conn (fst (load_to_raw e df tbl ds ct st)) = Open"
    and "ledger_fault e = None \<Longrightarrow>
         ingest_runs (fst (load_to_raw e df tbl ds ct st)) =
           ingest_runs st @
             [\<lparr>run_id = fresh_run_id e, dataset_name = ds, table_name = tbl,
               run_timestamp = now e, records_loaded = nrows (frames st df),
               status = ''completed'', error_message = None\<rparr>]"
    and "ledger_fault e = Some x \<Longrightarrow>
         ingest_runs (fst (load_to_raw e df tbl ds ct st)) = ingest_runs st
         \<and> log (fst (load_to_raw e df tbl ds ct st)) =
             log st @ [(WARNING, ''Failed to log metadata: '' @ exn_text x)]"
  using assms by (auto simp: load_defs split: option.splits)

lemma close_update_watermarks [simp]:
  "ingest_runs (update_watermark e d v st) = ingest_runs st"
  "frames (update_watermark e d v st) = frames st"
  by (simp_all add: update_watermark_def split: option.splits)

lemma company_info_watermarks:
  "watermarks (fst (extract_and_load_company_info e df st)) = watermarks st"
proof -
  obtain s1 r where eq:
    "load_to_raw e df ''COMPANY_INFO'' ''company_info'' False (st\<lparr>conn := NoConn\<rparr>) = (s1, r)"
    by (cases "load_to_raw e df ''COMPANY_INFO'' ''company_info'' False (st\<lparr>conn := NoConn\<rparr>)")
  have "watermarks s1 = watermarks st"
    using load_watermarks [of e df "''COMPANY_INFO''" "''company_info''" False "st\<lparr>conn := NoConn\<rparr>"]
    by (simp add: eq)
  then show ?thesis
    by (cases r) (simp_all add: extract_and_load_company_info_def eq)
qed

lemma update_watermark_conn [simp]: "conn (update_watermark e d v st) = conn st"
  by (simp add: update_watermark_def split: option.splits)

lemma update_watermark_ok:
  "conn st = Open \<Longrightarrow> watermark_fault e = None \<Longrightarrow>
     watermarks (update_watermark e d v st) = (watermarks st)(d \<mapsto> (v, now e))"
  by (simp add: update_watermark_def cursor_execute_def)

section \<open>The caller's batch\<close>

text \<open>
  C10. \<open>load_to_raw\<close> works on a copy: every DataFrame object that exists before the call
  (its address is below \<open>next_addr\<close>), the caller's batch among them, has the same columns
  and values after the call, however the call ends. The run identifier and the converted
  date columns are in the copy, at the address \<open>next_addr\<close> had.
\<close>

theorem caller_batch_untouched:
  assumes "a < next_addr st"
  shows "frames (fst (load_to_raw e df tbl ds ct st)) a = frames st a"
  using assms by (simp add: load_frames)

theorem caller_batch_untouched_witness:
  "0 < next_addr start_state
   \<and> frames (fst (load_to_raw calm 0 ''STOCK_PRICES_DAILY'' ''stock_prices'' False start_state)) 0 =
       price_frame
   \<and> map_of (columns (frames (fst (load_to_raw calm 0 ''STOCK_PRICES_DAILY'' ''stock_prices'' False
         start_state)) 2)) ''source_run_id'' =
       Some \<lparr>dtype = ObjectT, cells = [Text ''run-1'', Text ''run-1'']\<rparr>
   \<and> map_of (columns price_frame) ''source_run_id'' = None"
proof -
  have h: "0 < next_addr start_state" by (simp add: start_state_def)
  have n: "next_addr start_state = 2" "conn start_state = NoConn" "connect_fault calm = None"
    "fresh_run_id calm = ''run-1''" "nrows price_frame = 2"
    by (simp_all add: start_state_def calm_def price_frame_def)
  have d: "map_of (columns (frames (fst (load_to_raw calm 0 ''STOCK_PRICES_DAILY'' ''stock_prices'' False
         start_state)) 2)) ''source_run_id'' =
       Some \<lparr>dtype = ObjectT, cells = [Text ''run-1'', Text ''run-1'']\<rparr>"
    by (simp add: load_frames start_state_frames n stamp_run_id_def set_column_lookup
          numeral_2_eq_2)
  have p: "map_of (columns price_frame) ''source_run_id'' = None"
    by (simp add: price_frame_def)
  show ?thesis
    using h d p
      caller_batch_untouched [OF h, of calm 0 "''STOCK_PRICES_DAILY''" "''stock_prices''" False]
    by (simp add: start_state_frames)
qed

section \<open>What reaches the warehouse\<close>

text \<open>
  C8. For a non-empty batch and a working connection, the frame handed to \<open>write_pandas\<close>
  (the copy, at the address \<open>next_addr\<close> had) has a column \<open>source_run_id\<close> holding the one
  run identifier in every row; every other column of the batch is there under its name,
  with every timestamp cut to its calendar day when the name contains \<open>date\<close> (in any
  letter case) and the column is datetime-typed, and unchanged otherwise; a timestamp with
  a time of day is never the result of the cut. The call is made with \<open>overwrite=False\<close>:
  every table keeps the rows it had, in place, and the target table gains the rows of that
  frame behind them when the write succeeds.
\<close>

theorem batch_prepared_and_appended:
  assumes "\<not> df_empty (frames st df)" and "conn st = Open \<or> connect_fault e = None"
  shows "map_of (columns (frames (fst (load_to_raw e df tbl ds ct st)) (next_addr st))) ''source_run_id'' =
           Some \<lparr>dtype = ObjectT, cells = replicate (nrows (frames st df)) (Text (fresh_run_id e))\<rparr>
    \<and> (\<forall>name s. map_of (columns (frames st df)) name = Some s \<and> name \<noteq> ''source_run_id'' \<longrightarrow>
          map_of (columns (frames (fst (load_to_raw e df tbl ds ct st)) (next_addr st))) name =
            Some (if is_date_name name \<and> is_datetime64_any_dtype s
                  then \<lparr>dtype = ObjectT, cells = map strip_time (cells s)\<rparr> else s))
    \<and> (\<forall>c d t. strip_time c \<noteq> Timestamp d t)
    \<and> (\<forall>t. raw_tables (fst (load_to_raw e df tbl ds ct st)) t =
          raw_tables st t @
            (if t = tbl \<and> (\<exists>k n out. write_outcome e = WpReturn True k n out)
             then rows_of (frames (fst (load_to_raw e df tbl ds ct st)) (next_addr st)) else []))"
proof -
  let ?w = "frames (fst (load_to_raw e df tbl ds ct st)) (next_addr st)"
  have w: "?w = stamp_run_id (fresh_run_id e)
             (convert_date_columns (map fst (columns (frames st df))) (frames st df))"
    using assms by (simp add: load_frames)
  have 1: "map_of (columns ?w) ''source_run_id'' =
           Some \<lparr>dtype = ObjectT, cells = replicate (nrows (frames st df)) (Text (fresh_run_id e))\<rparr>"
    by (simp add: w stamp_run_id_def set_column_lookup)
  have 2: "map_of (columns ?w) name =
            Some (if is_date_name name \<and> is_datetime64_any_dtype s
                  then \<lparr>dtype = ObjectT, cells = map strip_time (cells s)\<rparr> else s)"
    if "map_of (columns (frames st df)) name = Some s" "name \<noteq> ''source_run_id''" for name s
  proof -
    have "name \<in> set (map fst (columns (frames st df)))"
      using that(1) by (metis map_of_eq_None_iff option.distinct(1) set_map)
    then show ?thesis
      using that by (simp add: w stamp_run_id_def set_column_lookup convert_lookup dt_date_def)
  qed
  have 4: "raw_tables (fst (load_to_raw e df tbl ds ct st)) t =
          raw_tables st t @
            (if t = tbl \<and> (\<exists>k n out. write_outcome e = WpReturn True k n out)
             then rows_of ?w else [])" for t
    using assms by (cases "write_outcome e") (auto simp: load_tables)
  show ?thesis using 1 2 4 strip_time_no_clock by blast
qed

theorem batch_prepared_and_appended_witness:
  "\<not> df_empty (frames stocked_state 0)
   \<and> map_of (columns (frames (fst (load_to_raw calm 0 ''STOCK_PRICES_DAILY'' ''stock_prices'' False
         stocked_state)) 2)) ''source_run_id'' =
       Some \<lparr>dtype = ObjectT, cells = [Text ''run-1'', Text ''run-1'']\<rparr>
   \<and> map_of (columns (frames (fst (load_to_raw calm 0 ''STOCK_PRICES_DAILY'' ''stock_prices'' False
         stocked_state)) 2)) ''date'' =
       Some \<lparr>dtype = ObjectT, cells = [DateOnly 738000, DateOnly 738001]\<rparr>
   \<and> raw_tables (fst (load_to_raw calm 0 ''STOCK_PRICES_DAILY'' ''stock_prices'' False stocked_state))
       ''STOCK_PRICES_DAILY'' =
       [(''symbol'', Text ''MSFT'')] #
         rows_of (frames (fst (load_to_raw calm 0 ''STOCK_PRICES_DAILY'' ''stock_prices'' False
           stocked_state)) 2)"
proof -
  have h1: "\<not> df_empty (frames stocked_state 0)"
    by (simp add: stocked_state_simps start_state_frames)
  have h2: "conn stocked_state = Open \<or> connect_fault calm = None"
    by (simp add: stocked_state_simps)
  show ?thesis
    using h1 batch_prepared_and_appended
            [OF h1 h2, of "''STOCK_PRICES_DAILY''" "''stock_prices''" False]
    by (simp add: stocked_state_simps calm_simps price_frame_simps is_date_name_date
          is_datetime64_any_dtype_def numeral_2_eq_2)
qed

section \<open>Reading the watermark\<close>

text \<open>
  C9. \<open>get_watermark\<close> has no way to raise: its whole body is inside \<open>try\<close>, and the
  handler returns \<open>None\<close>. With a working connection and a query that goes through it
  returns the stored value of the dataset, or \<open>None\<close> when the dataset has no row; with no
  usable connection or a failing query it returns \<open>None\<close>. The stored watermarks are the
  same afterwards.
\<close>

theorem get_watermark_never_raises:
  "(conn st = Open \<and> select_fault e = None \<longrightarrow>
      snd (get_watermark e ds st) = (case watermarks st ds of Some (v, t) \<Rightarrow> Some v | None \<Rightarrow> None))
   \<and> (conn st \<noteq> Open \<or> select_fault e \<noteq> None \<longrightarrow> snd (get_watermark e ds st) = None)
   \<and> watermarks (fst (get_watermark e ds st)) = watermarks st"
  by (cases "conn st")
     (auto simp: get_watermark_def cursor_execute_def split: option.splits)

theorem get_watermark_never_raises_witness:
  "snd (get_watermark calm ''stock_prices'' stocked_state) = Some ''2024-01-10''
   \<and> snd (get_watermark calm ''company_info'' stocked_state) = None
   \<and> snd (get_watermark calm ''stock_prices'' (close stocked_state)) = None
   \<and> snd (get_watermark all_down ''stock_prices'' start_state) = None"
  using get_watermark_never_raises [of stocked_state calm "''stock_prices''"]
    get_watermark_never_raises [of stocked_state calm "''company_info''"]
    get_watermark_never_raises [of "close stocked_state" calm "''stock_prices''"]
    get_watermark_never_raises [of start_state all_down "''stock_prices''"]
  by (simp add: stocked_state_simps calm_simps close_def start_state_def)

section \<open>Advancing the watermark\<close>

text \<open>
  C2, as the code has it. \<open>update_watermark\<close> overwrites: after any sequence of advances
  that all go through, the stored value of a dataset is the value of the last advance for
  that dataset, or the value stored before when the sequence has none for it. Nothing
  compares the new value with the stored one.
\<close>

theorem advance_last_write_wins:
  assumes "conn st = Open" and "\<forall>(e, d, v) \<in> set calls. watermark_fault e = None"
  shows "map_option fst (watermarks (advance_all calls st) ds) =
           (case filter (\<lambda>(e, d, v). d = ds) calls of
              [] \<Rightarrow> map_option fst (watermarks st ds)
            | c # cs \<Rightarrow> Some (snd (snd (last (c # cs)))))"
  using assms
proof (induction calls arbitrary: st)
  case Nil
  show ?case by simp
next
  case (Cons call calls)
  obtain e d v where call: "call = (e, d, v)" by (cases call)
  have ok: "watermark_fault e = None" using Cons.prems(2) call by simp
  have w: "watermarks (update_watermark e d v st) = (watermarks st)(d \<mapsto> (v, now e))"
    using update_watermark_ok [OF Cons.prems(1) ok] .
  have ih: "map_option fst (watermarks (advance_all calls (update_watermark e d v st)) ds) =
           (case filter (\<lambda>(e, d, v). d = ds) calls of
              [] \<Rightarrow> map_option fst (watermarks (update_watermark e d v st) ds)
            | c # cs \<Rightarrow> Some (snd (snd (last (c # cs)))))"
    using Cons.IH [of "update_watermark e d v st"] Cons.prems by simp
  show ?case
  proof (cases "d = ds")
    case True
    then show ?thesis using w ih by (auto simp: call split: list.splits)
  next
    case False
    then show ?thesis using w ih by (auto simp: call split: list.splits)
  qed
qed

theorem advance_last_write_wins_witness:
  "map_option fst (watermarks (advance_all
       [(calm, ''stock_prices'', ''2024-01-05''), (calm, ''benchmark_series'', ''2024-01-03''),
        (calm, ''stock_prices'', ''2024-01-12'')]
       stocked_state) ''stock_prices'') = Some ''2024-01-12''
   \<and> map_option fst (watermarks (advance_all
       [(calm, ''benchmark_series'', ''2024-01-03'')] stocked_state) ''stock_prices'') =
       Some ''2024-01-10''"
proof -
  have h1: "conn stocked_state = Open" by (simp add: stocked_state_simps)
  have h2: "\<forall>(e, d, v) \<in> set [(calm, ''stock_prices'', ''2024-01-05''),
        (calm, ''benchmark_series'', ''2024-01-03''), (calm, ''stock_prices'', ''2024-01-12'')].
        watermark_fault e = None"
    by (simp add: calm_simps)
  have h3: "\<forall>(e, d, v) \<in> set [(calm, ''benchmark_series'', ''2024-01-03'')].
        watermark_fault e = None"
    by (simp add: calm_simps)
  show ?thesis
    using advance_last_write_wins [OF h1 h2, of "''stock_prices''"]
      advance_last_write_wins [OF h1 h3, of "''stock_prices''"]
    by (simp add: stocked_state_simps)
qed

text \<open>
  C2 as stated asks for the running maximum. Advancing \<open>stock_prices\<close> to 2024-01-10 and
  then to 2024-01-05 leaves 2024-01-05 stored, while the larger of the two is 2024-01-10.
\<close>

theorem later_earlier_date_regresses:
  "map_option fst (watermarks (advance_all
       [(calm, ''stock_prices'', ''2024-01-10''), (calm, ''stock_prices'', ''2024-01-05'')]
       (start_state\<lparr>conn := Open\<rparr>)) ''stock_prices'') = Some ''2024-01-05''
   \<and> max ''2024-01-10'' ''2024-01-05'' = ''2024-01-10''"
  by (simp add: update_watermark_def cursor_execute_def calm_def start_state_def max_def)

section \<open>Completed loads\<close>

text \<open>
  C3, as the code has it. For a non-empty batch (an existing DataFrame object), when the
  connection works and \<open>write_pandas\<close> reports success: \<open>load_to_raw\<close> returns status
  \<open>completed\<close> with \<open>records_loaded\<close> the length of the batch; when the ledger statement
  goes through, the ledger has gained exactly one record, with status \<open>completed\<close> and the
  length of the batch as its row count, and when the ledger statement raises, the ledger is
  as it was and a warning is logged; the watermarks are as they were. The watermark is
  advanced by the caller: the prices and benchmarks tasks store \<open>str\<close> of the maximum of the
  batch's \<open>date\<close> column when that statement goes through; the company-info task leaves the
  watermarks as they were.
\<close>

theorem completed_load_recorded:
  assumes "\<not> df_empty (frames st df)" and "connect_fault e = None"
    and "write_outcome e = WpReturn True k n out"
    and "df < next_addr st"
  shows "snd (load_to_raw e df tbl ds ct st) =
           Inr [(''run_id'', PStr (fresh_run_id e)),
                (''records_loaded'', PInt (nrows (frames st df))),
                (''status'', PStr ''completed''), (''chunks'', PInt k)]
    \<and> (ledger_fault e = None \<longrightarrow>
          ingest_runs (fst (load_to_raw e df tbl ds ct st)) =
            ingest_runs st @
              [\<lparr>run_id = fresh_run_id e, dataset_name = ds, table_name = tbl,
                run_timestamp = now e, records_loaded = nrows (frames st df),
                status = ''completed'', error_message = None\<rparr>])
    \<and> (\<forall>x. ledger_fault e = Some x \<longrightarrow>
          ingest_runs (fst (load_to_raw e df tbl ds ct st)) = ingest_runs st
          \<and> log (fst (load_to_raw e df tbl ds ct st)) =
              log st @ [(WARNING, ''Failed to log metadata: '' @ exn_text x)])
    \<and> watermarks (fst (load_to_raw e df tbl ds ct st)) = watermarks st
    \<and> (\<forall>m. column_max (frames st df) ''date'' = Inr m \<and> watermark_fault e = None \<longrightarrow>
          watermarks (fst (load_with_watermark tbl ds str_of e df st)) =
            (watermarks st)(ds \<mapsto> (str_of m, now e)))
    \<and> watermarks (fst (extract_and_load_company_info e df st)) = watermarks st"
proof -
  let ?s0 = "st\<lparr>conn := NoConn\<rparr>"
  let ?done = "Inr [(''run_id'', PStr (fresh_run_id e)),
                    (''records_loaded'', PInt (nrows (frames st df))),
                    (''status'', PStr ''completed''), (''chunks'', PInt k)]"
  have ne: "\<not> df_empty (frames ?s0 df)" using assms(1) by simp
  have co: "conn ?s0 = Open \<or> connect_fault e = None" using assms(2) by simp
  have co': "conn st = Open \<or> connect_fault e = None" using assms(2) by simp
  note a = load_completed [OF assms(1) co' assms(3)]
  note b = load_completed [OF ne co assms(3), where tbl = tbl and ds = ds and ct = False]
  have fr: "frames (fst (load_to_raw e df tbl ds False ?s0)) df = frames st df"
    using assms(4) by (simp add: load_frames)
  obtain st1 where eq: "load_to_raw e df tbl ds False ?s0 = (st1, ?done)"
    using b(1) by (cases "load_to_raw e df tbl ds False ?s0") simp
  have s1: "frames st1 df = frames st df" "conn st1 = Open" "watermarks st1 = watermarks st"
    using fr b(2) load_watermarks [of e df tbl ds False ?s0] by (simp_all add: eq)
  have 1: "snd (load_to_raw e df tbl ds ct st) = ?done" by (rule a(1))
  have 2: "ledger_fault e = None \<longrightarrow>
          ingest_runs (fst (load_to_raw e df tbl ds ct st)) =
            ingest_runs st @
              [\<lparr>run_id = fresh_run_id e, dataset_name = ds, table_name = tbl,
                run_timestamp = now e, records_loaded = nrows (frames st df),
                status = ''completed'', error_message = None\<rparr>]"
    using a(3) by blast
  have 3: "\<forall>x. ledger_fault e = Some x \<longrightarrow>
          ingest_runs (fst (load_to_raw e df tbl ds ct st)) = ingest_runs st
          \<and> log (fst (load_to_raw e df tbl ds ct st)) =
              log st @ [(WARNING, ''Failed to log metadata: '' @ exn_text x)]"
    using a(4) by blast
  have 4: "watermarks (fst (load_to_raw e df tbl ds ct st)) = watermarks st"
    by (rule load_watermarks)
  have 5: "\<forall>m. column_max (frames st df) ''date'' = Inr m \<and> watermark_fault e = None \<longrightarrow>
          watermarks (fst (load_with_watermark tbl ds str_of e df st)) =
            (watermarks st)(ds \<mapsto> (str_of m, now e))"
    using assms(1) s1 by (simp add: load_with_watermark_def eq update_watermark_ok)
  have 6: "watermarks (fst (extract_and_load_company_info e df st)) = watermarks st"
    by (rule company_info_watermarks)
  show ?thesis using 1 2 3 4 5 6 by blast
qed

theorem completed_load_recorded_witness:
  "snd (load_to_raw calm 0 ''STOCK_PRICES_DAILY'' ''stock_prices'' False start_state) =
     Inr [(''run_id'', PStr ''run-1''), (''records_loaded'', PInt 2),
          (''status'', PStr ''completed''), (''chunks'', PInt 1)]
   \<and> ingest_runs (fst (load_to_raw calm 0 ''STOCK_PRICES_DAILY'' ''stock_prices'' False start_state)) =
       [\<lparr>run_id = ''run-1'', dataset_name = ''stock_prices'', table_name = ''STOCK_PRICES_DAILY'',
         run_timestamp = 100, records_loaded = 2, status = ''completed'', error_message = None\<rparr>]
   \<and> log (fst (load_to_raw ledger_down 0 ''STOCK_PRICES_DAILY'' ''stock_prices'' False start_state)) =
       [(WARNING, ''Failed to log metadata: session expired'')]
   \<and> watermarks (fst (extract_and_load_prices sample_str calm 0 start_state)) ''stock_prices'' =
       Some (''2021-07-30 01:00:00'', 100)"
proof -
  have h1: "\<not> df_empty (frames start_state 0)" by (simp add: start_state_frames)
  have h4: "0 < next_addr start_state" by (simp add: start_state_def)
  have d: "connect_fault ledger_down = None" "write_outcome ledger_down = WpReturn True 1 2 ''ok''"
    "ledger_fault ledger_down = Some (Exn ''OperationalError'' ''session expired'')"
    by (simp_all add: ledger_down_def calm_def)
  have e: "ingest_runs start_state = []" "watermarks start_state = Map.empty" "log start_state = []"
    by (simp_all add: start_state_def)
  have s: "sample_str (Timestamp 738001 3600) = ''2021-07-30 01:00:00''"
    by (simp add: sample_str_def)
  show ?thesis
    using completed_load_recorded [OF h1 calm_simps(1) calm_simps(4) h4,
            of "''STOCK_PRICES_DAILY''" "''stock_prices''" False sample_str]
          completed_load_recorded [OF h1 d(1) d(2) h4,
            of "''STOCK_PRICES_DAILY''" "''stock_prices''" False sample_str]
    by (simp add: calm_simps d(3) start_state_frames price_frame_simps e s
          extract_and_load_prices_def)
qed

text \<open>
  C3 as stated has, once the load reports \<open>completed\<close>, one new run record and the
  watermark equal to the maximum date. A completed load of a batch whose latest date is day
  738001 leaves the dataset without a watermark, and so does the whole company-info task;
  and when the ledger statement raises, the load still reports \<open>completed\<close> and the ledger
  stays empty.
\<close>

theorem completed_load_leaves_watermark:
  "snd (load_to_raw calm 0 ''COMPANY_INFO'' ''company_info'' False start_state) =
     Inr [(''run_id'', PStr ''run-1''), (''records_loaded'', PInt 2),
          (''status'', PStr ''completed''), (''chunks'', PInt 1)]
   \<and> column_max (frames start_state 0) ''date'' = Inr (Timestamp 738001 3600)
   \<and> watermarks (fst (load_to_raw calm 0 ''COMPANY_INFO'' ''company_info'' False start_state))
       ''company_info'' = None
   \<and> watermarks (fst (extract_and_load_company_info calm 0 start_state)) ''company_info'' = None
   \<and> snd (load_to_raw ledger_down 0 ''COMPANY_INFO'' ''company_info'' False start_state) =
       Inr [(''run_id'', PStr ''run-1''), (''records_loaded'', PInt 2),
            (''status'', PStr ''completed''), (''chunks'', PInt 1)]
   \<and> ingest_runs (fst (load_to_raw ledger_down 0 ''COMPANY_INFO'' ''company_info'' False start_state))
       = []"
proof -
  have h1: "\<not> df_empty (frames start_state 0)" by (simp add: start_state_frames)
  have h2: "conn start_state = Open \<or> connect_fault calm = None" by (simp add: calm_simps)
  have d: "conn start_state = Open \<or> connect_fault ledger_down = None"
    "write_outcome ledger_down = WpReturn True 1 2 ''ok''"
    "ledger_fault ledger_down = Some (Exn ''OperationalError'' ''session expired'')"
    "fresh_run_id ledger_down = ''run-1''"
    by (simp_all add: ledger_down_def calm_def)
  have e: "watermarks start_state = Map.empty" "ingest_runs start_state = []"
    by (simp_all add: start_state_def)
  show ?thesis
    using load_completed(1) [OF h1 h2 calm_simps(4), where tbl = "''COMPANY_INFO''"
            and ds = "''company_info''" and ct = False]
          load_completed(1) [OF h1 d(1) d(2), where tbl = "''COMPANY_INFO''"
            and ds = "''company_info''" and ct = False]
          load_completed(4) [OF h1 d(1) d(2) d(3), where tbl = "''COMPANY_INFO''"
            and ds = "''company_info''" and ct = False]
    by (simp add: load_watermarks company_info_watermarks e d(4) calm_simps start_state_frames
          price_frame_simps)
qed

section \<open>Facts about the data-quality check\<close>

lemma check_counts_zero:
  "(t, n) \<in> set cs \<Longrightarrow>
   query_result g (count_query t) = Inr [] \<or> (\<exists>rest. query_result g (count_query t) = Inr (QInt 0 # rest)) \<Longrightarrow>
   isl (check_counts g cs results)"
proof (induction cs arbitrary: results)
  case Nil
  then show ?case by simp
next
  case (Cons c cs)
  obtain t' n' where c: "c = (t', n')" by (cases c)
  show ?case
  proof (cases "t' = t")
    case True
    then show ?thesis using Cons.prems(2) by (auto simp: c Let_def split: sum.splits list.splits)
  next
    case False
    then have "(t, n) \<in> set cs" using Cons.prems(1) c by simp
    then have "isl (check_counts g cs r)" for r using Cons.IH Cons.prems(2) by blast
    then show ?thesis by (simp add: c Let_def split: sum.splits list.splits)
  qed
qed

lemma check_counts_positive:
  "\<forall>(t, n) \<in> set cs. \<exists>c rest. query_result g (count_query t) = Inr (c # rest) \<and> c \<noteq> QInt 0 \<Longrightarrow>
   \<exists>r. check_counts g cs results = Inr r"
proof (induction cs arbitrary: results)
  case Nil
  then show ?case by simp
next
  case (Cons c cs)
  obtain t' n' where c: "c = (t', n')" by (cases c)
  from Cons.prems obtain v rest where v: "query_result g (count_query t') = Inr (v # rest)" "v \<noteq> QInt 0"
    using c by auto
  have "\<exists>r. check_counts g cs (AList.update n' v results) = Inr r"
    using Cons.IH Cons.prems by simp
  then show ?case by (simp add: c v Let_def)
qed

lemma verify_empty:
  assumes "(t, n) \<in> set checks"
    and "query_result g (count_query t) = Inr [] \<or> (\<exists>rest. query_result g (count_query t) = Inr (QInt 0 # rest))"
  shows "\<exists>x. verify_data_quality g = ([], Inl x)"
proof -
  have "isl (check_counts g checks [])" using check_counts_zero [OF assms] .
  then obtain x where "check_counts g checks [] = Inl x" by (cases "check_counts g checks []") auto
  then show ?thesis by (simp add: verify_data_quality_def)
qed

lemma verify_stale:
  assumes "\<forall>(t, n) \<in> set checks. \<exists>c rest. query_result g (count_query t) = Inr (c # rest) \<and> c \<noteq> QInt 0"
    and "query_result g recent_check = Inr (v # vs)" and "to_date g v = Inr d" and "7 < today g - d"
  shows "\<exists>r. verify_data_quality g =
           ([(WARNING, ''Data is '' @ py_str_int (today g - d) @ '' days old - may need refresh'')], Inr r)"
proof -
  obtain r where r: "check_counts g checks [] = Inr r" using check_counts_positive [OF assms(1)] by blast
  have "check_freshness g =
          Inr [(WARNING, ''Data is '' @ py_str_int (today g - d) @ '' days old - may need refresh'')]"
    using assms(2-4) by (simp add: check_freshness_def Let_def)
  then show ?thesis using r by (simp add: verify_data_quality_def)
qed

lemma empty_company_simps:
  "(''COBRA.COMPANY_INFO'', ''company info'') \<in> set checks"
  "query_result empty_company (count_query ''COBRA.COMPANY_INFO'') = Inr [QInt 0]"
  by (simp_all add: checks_def empty_company_def)

lemma stale_simps:
  "\<forall>(t, n) \<in> set checks. \<exists>c rest. query_result stale (count_query t) = Inr (c # rest) \<and> c \<noteq> QInt 0"
  "query_result stale recent_check = Inr [QDate 738000]"
  "to_date stale (QDate 738000) = Inr 738000"
  "today stale = 738010"
  by (simp_all add: checks_def stale_def count_query_def recent_check_def to_date_def)

lemma sample_strs: "py_str_int 10 = ''10''"
  by code_simp

section \<open>Facts about runs of the task graph\<close>

lemma upstream_simps:
  "upstream StartMarker = []"
  "upstream ExtractPrices = [StartMarker]"
  "upstream ExtractCompany = [StartMarker]"
  "upstream ExtractBenchmarks = [StartMarker]"
  "upstream Verify = [ExtractPrices, ExtractCompany, ExtractBenchmarks]"
  "upstream TransformDbt = [Verify]"
  "upstream EndMarker = [TransformDbt]"
  by (simp_all add: upstream_def chain_def)

lemma task_retries_all: "task_retries t = 2" "task_retry_delay t = 300"
  by (cases t; simp add: task_retries_def task_retry_delay_def dag_default_args_def)+

lemma step_final:
  "state_of s t = Succeeded \<or> state_of s t = Failed \<or> state_of s t = UpstreamFailed \<Longrightarrow> state_of (step e s) t = state_of s t"
  by (cases e) auto

lemma step_attempts:
  "attempts (step e s) t = attempts s t
   \<or> (state_of s t = Pending \<and> (\<forall>u \<in> set (upstream t). state_of s u = Succeeded)
      \<and> attempts (step e s) t = Suc (attempts s t) \<and> state_of (step e s) t = Running)"
  by (cases e) auto

lemma step_attempts_mono: "attempts s t \<le> attempts (step e s) t"
  using step_attempts [of e s t] by auto

lemma step_started:
  "0 < attempts s t \<longrightarrow> (\<forall>u \<in> set (upstream t). state_of s u = Succeeded) \<Longrightarrow>
   0 < attempts (step e s) t \<longrightarrow> (\<forall>u \<in> set (upstream t). state_of (step e s) u = Succeeded)"
proof
  assume h: "0 < attempts s t \<longrightarrow> (\<forall>u \<in> set (upstream t). state_of s u = Succeeded)"
    and a: "0 < attempts (step e s) t"
  have "\<forall>u \<in> set (upstream t). state_of s u = Succeeded"
    using step_attempts [of e s t] h a by auto
  then show "\<forall>u \<in> set (upstream t). state_of (step e s) u = Succeeded"
    using step_final [of s _ e] by auto
qed

lemma step_begun:
  "(state_of s t = Running \<or> state_of s t = Succeeded \<or> state_of s t = Failed \<longrightarrow> 0 < attempts s t) \<Longrightarrow>
   (state_of (step e s) t = Running \<or> state_of (step e s) t = Succeeded \<or> state_of (step e s) t = Failed
      \<longrightarrow> 0 < attempts (step e s) t)"
  by (cases e) (auto split: if_splits)

lemma step_bound:
  "attempts s t \<le> task_retries t + 1 \<and> (state_of s t = Pending \<longrightarrow> attempts s t \<le> task_retries t) \<Longrightarrow>
   attempts (step e s) t \<le> task_retries t + 1
   \<and> (state_of (step e s) t = Pending \<longrightarrow> attempts (step e s) t \<le> task_retries t)"
  by (cases e) (auto split: if_splits)

lemma run_final:
  "state_of s t = Succeeded \<or> state_of s t = Failed \<or> state_of s t = UpstreamFailed \<Longrightarrow> state_of (run evs s) t = state_of s t"
  by (induction evs arbitrary: s) (simp_all add: step_final)

lemma run_started:
  "0 < attempts s t \<longrightarrow> (\<forall>u \<in> set (upstream t). state_of s u = Succeeded) \<Longrightarrow>
   0 < attempts (run evs s) t \<longrightarrow> (\<forall>u \<in> set (upstream t). state_of (run evs s) u = Succeeded)"
proof (induction evs arbitrary: s)
  case Nil
  then show ?case by simp
next
  case (Cons e evs)
  show ?case using Cons.IH [OF step_started [OF Cons.prems]] by simp
qed

lemma run_begun:
  "(state_of s t = Running \<or> state_of s t = Succeeded \<or> state_of s t = Failed \<longrightarrow> 0 < attempts s t) \<Longrightarrow>
   (state_of (run evs s) t = Running \<or> state_of (run evs s) t = Succeeded \<or> state_of (run evs s) t = Failed
      \<longrightarrow> 0 < attempts (run evs s) t)"
proof (induction evs arbitrary: s)
  case Nil
  then show ?case by simp
next
  case (Cons e evs)
  show ?case using Cons.IH [OF step_begun [OF Cons.prems]] by simp
qed

lemma run_bound:
  "attempts s t \<le> task_retries t + 1 \<and> (state_of s t = Pending \<longrightarrow> attempts s t \<le> task_retries t) \<Longrightarrow>
   attempts (run evs s) t \<le> task_retries t + 1
   \<and> (state_of (run evs s) t = Pending \<longrightarrow> attempts (run evs s) t \<le> task_retries t)"
proof (induction evs arbitrary: s)
  case Nil
  then show ?case by simp
next
  case (Cons e evs)
  show ?case using Cons.IH [OF step_bound [OF Cons.prems]] by simp
qed

lemma run_append: "run (evs @ evs') s = run evs' (run evs s)"
  by (induction evs arbitrary: s) simp_all

lemma started_init:
  "0 < attempts (run evs init) t \<Longrightarrow> u \<in> set (upstream t) \<Longrightarrow> state_of (run evs init) u = Succeeded"
  using run_started [of init t evs] by (simp add: init_def)

lemma begun_init:
  "state_of (run evs init) t = Running \<or> state_of (run evs init) t = Succeeded \<or> state_of (run evs init) t = Failed \<Longrightarrow>
   0 < attempts (run evs init) t"
  using run_begun [of init t evs] by (simp add: init_def)

lemma bound_init: "attempts (run evs init) t \<le> 3"
  using run_bound [of init t evs] by (simp add: init_def task_retries_all)

lemma blocked:
  assumes "u \<in> set (upstream t)" and "state_of (run evs init) u \<noteq> Succeeded"
  shows "attempts (run evs init) t = 0" and "state_of (run evs init) t \<noteq> Succeeded"
proof -
  show a: "attempts (run evs init) t = 0"
    using started_init [of evs t u] assms by auto
  show "state_of (run evs init) t \<noteq> Succeeded"
    using begun_init [of evs t] a by auto
qed

lemma failed_stays:
  "state_of (run evs init) u = Failed \<or> state_of (run evs init) u = UpstreamFailed \<Longrightarrow>
   state_of (run (evs @ evs') init) u \<noteq> Succeeded"
  using run_final [of "run evs init" u evs'] by (auto simp: run_append)

lemma step_succeeded: "state_of (step e s) t = Succeeded \<Longrightarrow> state_of s t = Succeeded \<or> e = Succeed t"
  by (cases e) (auto split: if_splits)

lemma run_succeeded:
  "state_of (run evs s) t = Succeeded \<Longrightarrow> state_of s t = Succeeded \<or> Succeed t \<in> set evs"
proof (induction evs arbitrary: s)
  case Nil
  then show ?case by simp
next
  case (Cons e evs)
  then have "state_of (step e s) t = Succeeded \<or> Succeed t \<in> set evs" by simp
  then show ?case using step_succeeded [of e s t] by auto
qed

lemma sample_runs:
  "state_of (run extracts_done init) ExtractPrices = Succeeded"
  "state_of (run extracts_done init) ExtractCompany = Succeeded"
  "state_of (run extracts_done init) ExtractBenchmarks = Succeeded"
  "attempts (run (extracts_done @ [Begin Verify]) init) Verify = 1"
  "attempts (run (extracts_done @ [Begin Verify, Succeed Verify, Begin TransformDbt]) init) TransformDbt = 1"
  "state_of (run (extracts_done @ [Begin Verify, Succeed Verify, Begin TransformDbt]) init) Verify = Succeeded"
  "state_of (run prices_fail init) ExtractPrices = Failed"
  "attempts (run prices_fail init) ExtractPrices = 3"
  by (simp_all add: extracts_done_def prices_fail_def init_def upstream_simps task_retries_all)

lemma sample_more:
  "attempts (run gate_retried init) Verify = 3"
  "state_of (run gate_retried init) Verify = Running"
  "0 < attempts (run full_run init) Verify"
  "0 < attempts (run full_run init) TransformDbt"
  "0 < attempts (run full_run init) EndMarker"
  "state_of (run full_run init) EndMarker = Running"
  "state_of (run (prices_fail @ after_failure) init) Verify = UpstreamFailed"
  "state_of (run (prices_fail @ after_failure) init) TransformDbt = UpstreamFailed"
  by (simp_all add: gate_retried_def full_run_def after_failure_def extracts_done_def
        prices_fail_def init_def upstream_simps task_retries_all)

lemma step_failed:
  "attempts s t \<le> task_retries t + 1 \<and> (state_of s t = Pending \<longrightarrow> attempts s t \<le> task_retries t)
   \<and> (state_of s t = Failed \<longrightarrow> attempts s t = task_retries t + 1) \<Longrightarrow>
   attempts (step e s) t \<le> task_retries t + 1
   \<and> (state_of (step e s) t = Pending \<longrightarrow> attempts (step e s) t \<le> task_retries t)
   \<and> (state_of (step e s) t = Failed \<longrightarrow> attempts (step e s) t = task_retries t + 1)"
  by (cases e) (auto split: if_splits)

lemma run_failed:
  "attempts s t \<le> task_retries t + 1 \<and> (state_of s t = Pending \<longrightarrow> attempts s t \<le> task_retries t)
   \<and> (state_of s t = Failed \<longrightarrow> attempts s t = task_retries t + 1) \<Longrightarrow>
   attempts (run evs s) t \<le> task_retries t + 1
   \<and> (state_of (run evs s) t = Pending \<longrightarrow> attempts (run evs s) t \<le> task_retries t)
   \<and> (state_of (run evs s) t = Failed \<longrightarrow> attempts (run evs s) t = task_retries t + 1)"
proof (induction evs arbitrary: s)
  case Nil
  then show ?case by simp
next
  case (Cons e evs)
  show ?case using Cons.IH [OF step_failed [OF Cons.prems]] by simp
qed

lemma failed_init: "state_of (run evs init) t = Failed \<Longrightarrow> attempts (run evs init) t = 3"
  using run_failed [of init t evs] by (simp add: init_def task_retries_all)

lemma never_succeeded: "Succeed t \<notin> set evs \<Longrightarrow> state_of (run evs init) t \<noteq> Succeeded"
  using run_succeeded [of evs init t] by (auto simp: init_def)

section \<open>Empty and stale tables\<close>

text \<open>
  C5. When one of the three monitored tables has a count of zero (its count query returns
  no row, or a first row with count 0), \<open>verify_data_quality\<close> raises, with no warning
  logged; and in every run in which the verify task succeeds only if its callable
  returns, the transform task and the end marker are never started. When every count query
  returns a first row with a count other than 0, and the latest price date is more than 7
  days before today, \<open>verify_data_quality\<close> logs exactly the staleness warning and returns
  its results, so that the verify task succeeds and the transform task is started after it.
\<close>

theorem gate_halts_on_empty_not_on_stale:
  "((t, n) \<in> set checks
      \<and> (query_result g (count_query t) = Inr []
           \<or> (\<exists>rest. query_result g (count_query t) = Inr (QInt 0 # rest))) \<longrightarrow>
      (\<exists>x. verify_data_quality g = ([], Inl x))
      \<and> ((Succeed Verify \<in> set evs \<longrightarrow> task_outcome Verify (snd (verify_data_quality g)) = Succeed Verify)
            \<longrightarrow> attempts (run evs init) TransformDbt = 0 \<and> attempts (run evs init) EndMarker = 0))
   \<and> ((\<forall>(t, n) \<in> set checks.
          \<exists>c rest. query_result g (count_query t) = Inr (c # rest) \<and> c \<noteq> QInt 0)
        \<and> query_result g recent_check = Inr (v # vs) \<and> to_date g v = Inr d \<and> 7 < today g - d \<longrightarrow>
        (\<exists>r. verify_data_quality g =
               ([(WARNING, ''Data is '' @ py_str_int (today g - d) @ '' days old - may need refresh'')],
                Inr r))
        \<and> task_outcome Verify (snd (verify_data_quality g)) = Succeed Verify
        \<and> attempts
             (run (extracts_done @
                   [Begin Verify, task_outcome Verify (snd (verify_data_quality g)), Begin TransformDbt])
                init) TransformDbt = 1)"
proof (intro conjI impI)
  assume h: "(t, n) \<in> set checks
      \<and> (query_result g (count_query t) = Inr []
           \<or> (\<exists>rest. query_result g (count_query t) = Inr (QInt 0 # rest)))"
  then show e: "\<exists>x. verify_data_quality g = ([], Inl x)" using verify_empty [of t n g] by blast
  assume s: "Succeed Verify \<in> set evs \<longrightarrow> task_outcome Verify (snd (verify_data_quality g)) = Succeed Verify"
  have "task_outcome Verify (snd (verify_data_quality g)) = Fail Verify"
    using e by (auto simp: task_outcome_def)
  then have "Succeed Verify \<notin> set evs" using s by auto
  then have v: "state_of (run evs init) Verify \<noteq> Succeeded" by (rule never_succeeded)
  have tr: "attempts (run evs init) TransformDbt = 0" "state_of (run evs init) TransformDbt \<noteq> Succeeded"
    using blocked [of Verify TransformDbt evs] v by (auto simp: upstream_simps)
  show "attempts (run evs init) TransformDbt = 0" by (rule tr(1))
  show "attempts (run evs init) EndMarker = 0"
    using blocked(1) [of TransformDbt EndMarker evs] tr(2) by (auto simp: upstream_simps)
next
  assume h: "(\<forall>(t, n) \<in> set checks.
          \<exists>c rest. query_result g (count_query t) = Inr (c # rest) \<and> c \<noteq> QInt 0)
        \<and> query_result g recent_check = Inr (v # vs) \<and> to_date g v = Inr d \<and> 7 < today g - d"
  then obtain r where r: "verify_data_quality g =
      ([(WARNING, ''Data is '' @ py_str_int (today g - d) @ '' days old - may need refresh'')], Inr r)"
    using verify_stale [of g v vs d] by blast
  then show "\<exists>r. verify_data_quality g =
      ([(WARNING, ''Data is '' @ py_str_int (today g - d) @ '' days old - may need refresh'')], Inr r)"
    by blast
  show o: "task_outcome Verify (snd (verify_data_quality g)) = Succeed Verify"
    using r by (simp add: task_outcome_def)
  show "attempts
             (run (extracts_done @
                   [Begin Verify, task_outcome Verify (snd (verify_data_quality g)), Begin TransformDbt])
                init) TransformDbt = 1"
    unfolding o by (rule sample_runs(5))
qed

theorem gate_halts_on_empty_not_on_stale_witness:
  "(\<exists>x. verify_data_quality empty_company = ([], Inl x))
   \<and> attempts (run (extracts_done @ [Begin Verify, Fail Verify, Begin TransformDbt]) init) TransformDbt = 0
   \<and> (\<exists>r. verify_data_quality stale = ([(WARNING, ''Data is 10 days old - may need refresh'')], Inr r))
   \<and> attempts
        (run (extracts_done @
              [Begin Verify, task_outcome Verify (snd (verify_data_quality stale)), Begin TransformDbt])
           init) TransformDbt = 1"
proof -
  let ?evs = "extracts_done @ [Begin Verify, Fail Verify, Begin TransformDbt]"
  have quiet: "Succeed Verify \<notin> set ?evs" by (simp add: extracts_done_def)
  have h1: "(''COBRA.COMPANY_INFO'', ''company info'') \<in> set checks
      \<and> (query_result empty_company (count_query ''COBRA.COMPANY_INFO'') = Inr []
           \<or> (\<exists>rest. query_result empty_company (count_query ''COBRA.COMPANY_INFO'') = Inr (QInt 0 # rest)))"
    using empty_company_simps by blast
  note c1 = gate_halts_on_empty_not_on_stale
      [where t = "''COBRA.COMPANY_INFO''" and n = "''company info''" and g = empty_company
         and evs = ?evs, THEN conjunct1, THEN mp, OF h1]
  have e1: "\<exists>x. verify_data_quality empty_company = ([], Inl x)" using c1 by (rule conjunct1)
  have e2: "attempts (run ?evs init) TransformDbt = 0" using c1 [THEN conjunct2] quiet by blast
  have age: "today stale - 738000 = 10" by (simp add: stale_simps)
  have h2: "(\<forall>(t, n) \<in> set checks.
          \<exists>c rest. query_result stale (count_query t) = Inr (c # rest) \<and> c \<noteq> QInt 0)
        \<and> query_result stale recent_check = Inr (QDate 738000 # [])
        \<and> to_date stale (QDate 738000) = Inr 738000 \<and> 7 < today stale - 738000"
    using stale_simps(1-3) age by simp
  note c2 = gate_halts_on_empty_not_on_stale
      [where g = stale and v = "QDate 738000" and vs = "[]" and d = 738000,
         THEN conjunct2, THEN mp, OF h2]
  have e3: "\<exists>r. verify_data_quality stale =
              ([(WARNING, ''Data is 10 days old - may need refresh'')], Inr r)"
    using c2 [THEN conjunct1] unfolding age sample_strs by simp
  have e4: "attempts
        (run (extracts_done @
              [Begin Verify, task_outcome Verify (snd (verify_data_quality stale)), Begin TransformDbt])
           init) TransformDbt = 1"
    using c2 by (rule conjunct2 [THEN conjunct2])
  show ?thesis using e1 e2 e3 e4 by blast
qed

section \<open>Retries\<close>

text \<open>
  C6, as the code has it. Every task of the graph takes its retries from \<open>default_args\<close>:
  2 retries, 5 minutes apart; in every run a task is started at most 3 times, once and 2
  retries, and a task that is failed has been started 3 times.
\<close>

theorem every_task_retried_twice:
  "task_retries t = retries dag_default_args \<and> retries dag_default_args = 2
   \<and> task_retry_delay t = retry_delay dag_default_args \<and> retry_delay dag_default_args = 5 * 60
   \<and> attempts (run evs init) t \<le> 1 + task_retries t
   \<and> (state_of (run evs init) t = Failed \<longrightarrow> attempts (run evs init) t = 1 + task_retries t)"
  using bound_init [of evs t] failed_init [of evs t]
  by (simp add: task_retries_all dag_default_args_def)

theorem every_task_retried_twice_witness:
  "task_retries Verify = 2 \<and> task_retry_delay Verify = 5 * 60
   \<and> state_of (run prices_fail init) ExtractPrices = Failed
   \<and> attempts (run prices_fail init) ExtractPrices = 3"
  using every_task_retried_twice [of ExtractPrices prices_fail] every_task_retried_twice [of Verify "[]"]
    sample_runs(7)
  by simp

text \<open>
  C6 as stated has the verify task and the transform task never retried. Both have 2
  retries; in the run \<open>gate_retried\<close> the verify task has failed twice and is running for
  the third time.
\<close>

theorem gate_is_retried:
  "task_retries Verify = 2 \<and> task_retries TransformDbt = 2
   \<and> attempts (run gate_retried init) Verify = 3 \<and> state_of (run gate_retried init) Verify = Running"
  by (simp add: task_retries_all sample_more)

section \<open>Order of the tasks\<close>

text \<open>
  C7. After every list of events from the start of a run: if the verify task has been
  started, the three extraction tasks have succeeded; if the transform task has been
  started, the verify task has succeeded; if the end marker has been started, the transform
  task has succeeded; a task that is running, succeeded or failed has been started; and
  once an extraction task is failed or upstream-failed, the verify task, the transform task
  and the end marker have not been started, whatever events follow.
\<close>

theorem task_graph_order:
  "(0 < attempts (run evs init) Verify \<longrightarrow>
      state_of (run evs init) ExtractPrices = Succeeded \<and> state_of (run evs init) ExtractCompany = Succeeded
      \<and> state_of (run evs init) ExtractBenchmarks = Succeeded)
   \<and> (0 < attempts (run evs init) TransformDbt \<longrightarrow> state_of (run evs init) Verify = Succeeded)
   \<and> (0 < attempts (run evs init) EndMarker \<longrightarrow> state_of (run evs init) TransformDbt = Succeeded)
   \<and> (state_of (run evs init) t = Running \<or> state_of (run evs init) t = Succeeded \<or> state_of (run evs init) t = Failed
        \<longrightarrow> 0 < attempts (run evs init) t)
   \<and> ((u = ExtractPrices \<or> u = ExtractCompany \<or> u = ExtractBenchmarks)
        \<and> (state_of (run evs init) u = Failed \<or> state_of (run evs init) u = UpstreamFailed) \<longrightarrow>
        attempts (run (evs @ evs') init) Verify = 0
        \<and> attempts (run (evs @ evs') init) TransformDbt = 0
        \<and> attempts (run (evs @ evs') init) EndMarker = 0)"
proof -
  have 1: "0 < attempts (run evs init) Verify \<longrightarrow>
      state_of (run evs init) ExtractPrices = Succeeded \<and> state_of (run evs init) ExtractCompany = Succeeded
      \<and> state_of (run evs init) ExtractBenchmarks = Succeeded"
    using started_init [of evs Verify] by (simp add: upstream_simps)
  have 2: "0 < attempts (run evs init) TransformDbt \<longrightarrow> state_of (run evs init) Verify = Succeeded"
    using started_init [of evs TransformDbt] by (simp add: upstream_simps)
  have 3: "0 < attempts (run evs init) EndMarker \<longrightarrow> state_of (run evs init) TransformDbt = Succeeded"
    using started_init [of evs EndMarker] by (simp add: upstream_simps)
  have 4: "state_of (run evs init) t = Running \<or> state_of (run evs init) t = Succeeded \<or> state_of (run evs init) t = Failed
        \<longrightarrow> 0 < attempts (run evs init) t"
    using begun_init [of evs t] by blast
  have 5: "attempts (run (evs @ evs') init) Verify = 0
        \<and> attempts (run (evs @ evs') init) TransformDbt = 0
        \<and> attempts (run (evs @ evs') init) EndMarker = 0"
    if u: "u = ExtractPrices \<or> u = ExtractCompany \<or> u = ExtractBenchmarks"
      and f: "state_of (run evs init) u = Failed \<or> state_of (run evs init) u = UpstreamFailed"
  proof -
    let ?r = "evs @ evs'"
    have n: "state_of (run ?r init) u \<noteq> Succeeded" using failed_stays [OF f] .
    have up: "u \<in> set (upstream Verify)" using u by (auto simp: upstream_simps)
    have v: "attempts (run ?r init) Verify = 0" "state_of (run ?r init) Verify \<noteq> Succeeded"
      using blocked [OF up n] by auto
    have tr: "attempts (run ?r init) TransformDbt = 0" "state_of (run ?r init) TransformDbt \<noteq> Succeeded"
      using blocked [of Verify TransformDbt ?r] v(2) by (auto simp: upstream_simps)
    have en: "attempts (run ?r init) EndMarker = 0"
      using blocked(1) [of TransformDbt EndMarker ?r] tr(2) by (auto simp: upstream_simps)
    show ?thesis using v(1) tr(1) en by simp
  qed
  show ?thesis using 1 2 3 4 5 by blast
qed

theorem task_graph_order_witness:
  "0 < attempts (run full_run init) Verify
   \<and> state_of (run full_run init) ExtractPrices = Succeeded
   \<and> state_of (run full_run init) ExtractCompany = Succeeded
   \<and> state_of (run full_run init) ExtractBenchmarks = Succeeded
   \<and> 0 < attempts (run full_run init) TransformDbt \<and> state_of (run full_run init) Verify = Succeeded
   \<and> 0 < attempts (run full_run init) EndMarker \<and> state_of (run full_run init) TransformDbt = Succeeded
   \<and> state_of (run full_run init) EndMarker = Running
   \<and> state_of (run prices_fail init) ExtractPrices = Failed
   \<and> attempts (run (prices_fail @ after_failure) init) Verify = 0
   \<and> attempts (run (prices_fail @ after_failure) init) TransformDbt = 0
   \<and> attempts (run (prices_fail @ after_failure) init) EndMarker = 0"
  using task_graph_order [of full_run EndMarker ExtractPrices "[]"]
        task_graph_order [of prices_fail ExtractPrices ExtractPrices after_failure]
        sample_more sample_runs(7)
  by simp

end
